theory Spec2Isabelle
  imports Main "HOL-Library.Sublist" "HOL-Library.Char_ord" "HOL-Library.List_Lexorder"
begin

section \<open>Python values used by scripts/google_news_scraper.py\<close>

text \<open>
  Strings are lists of characters, one character for each code point of the Python
  string, so that \<open>length\<close>, \<open>take\<close> and \<open>drop\<close> count what Python's \<open>len\<close> and
  slices count. Every exception the script can meet is a value of
  \<open>py_exception\<close>; all of them are subclasses of Python's \<open>Exception\<close>, so each
  \<open>except Exception\<close> handler of the script catches every one of them.
\<close>

datatype py_exception =
    RequestException string
  | HTTPError nat
  | KeyError string
  | AttributeError string
  | IndexError
  | ValueError string
  | TypeError string
  | OSError string

definition squote :: char where
  "squote = CHR 0x27"

definition dquote :: char where
  "dquote = CHR 0x22"

definition newline :: char where
  "newline = CHR 0x0A"

fun digit_char :: "nat \<Rightarrow> char" where
  "digit_char n = ''0123456789'' ! (n mod 10)"

fun str_nat :: "nat \<Rightarrow> string" where
  "str_nat n = (if n < 10 then [digit_char n] else str_nat (n div 10) @ [digit_char (n mod 10)])"

declare str_nat.simps [simp del]

fun exn_str :: "py_exception \<Rightarrow> string" where
  "exn_str (RequestException m) = m"
| "exn_str (HTTPError code) = str_nat code @ '' Error''"
| "exn_str (KeyError k) = [squote] @ k @ [squote]"
| "exn_str (AttributeError m) = m"
| "exn_str IndexError = ''list index out of range''"
| "exn_str (ValueError m) = m"
| "exn_str (TypeError m) = m"
| "exn_str (OSError m) = m"

subsection \<open>\<open>sep in s\<close> and \<open>s.split(sep)\<close>\<close>

fun str_contains :: "string \<Rightarrow> string \<Rightarrow> bool" where
  "str_contains sep [] = (sep = [])"
| "str_contains sep (c # cs) = (prefix sep (c # cs) \<or> str_contains sep cs)"

text \<open>
  \<open>split_from sep cur s\<close> scans \<open>s\<close> from the left; \<open>cur\<close> is the piece read since the
  last separator. Occurrences of the separator are found leftmost first and do not overlap.
\<close>

function split_from :: "string \<Rightarrow> string \<Rightarrow> string \<Rightarrow> string list" where
  "split_from sep cur s =
     (if sep \<noteq> [] \<and> prefix sep s then cur # split_from sep [] (drop (length sep) s)
      else (case s of [] \<Rightarrow> [cur] | c # cs \<Rightarrow> split_from sep (cur @ [c]) cs))"
  by pat_completeness auto
termination
  by (relation "measure (\<lambda>(sep, cur, s). length s)") (auto simp: prefix_def)

declare split_from.simps [simp del]

definition str_split :: "string \<Rightarrow> string \<Rightarrow> py_exception + string list" where
  "str_split s sep =
     (if sep = [] then Inl (ValueError ''empty separator'') else Inr (split_from sep [] s))"

definition list_index0 :: "'a list \<Rightarrow> py_exception + 'a" where
  "list_index0 xs = (case xs of [] \<Rightarrow> Inl IndexError | x # _ \<Rightarrow> Inr x)"

section \<open>Feed entries and article records\<close>

text \<open>
  An entry as the feed parser yields it: every field may be absent. The nested source
  object, when present, may itself lack its title.
\<close>

record source_detail =
  source_title :: "string option"

record entry =
  entry_title :: "string option"
  entry_link :: "string option"
  entry_published :: "string option"
  entry_source :: "source_detail option"
  entry_summary :: "string option"

record feed =
  entries :: "entry list"

record article =
  title :: string
  link :: string
  published :: string
  source :: string
  summary :: string

text \<open>The archive snapshot that \<open>json.dump\<close> serialises (lines 77-81).\<close>

record snapshot =
  snap_date :: string
  snap_source_url :: string
  snap_articles :: "article list"

text \<open>
  What a run does to the outside world, in order: lines printed, the output directory
  created, a file opened for writing (which creates or truncates it), a snapshot dumped
  into a file, a text written to a file.
\<close>

datatype event =
    Print string
  | MakeDirs string
  | OpenWrite string
  | WriteSnapshot string snapshot
  | WriteText string string

definition MAX_ARTICLES :: nat where
  "MAX_ARTICLES = 20"

definition OUTPUT_DIR :: string where
  "OUTPUT_DIR = ''news''"

text \<open>\<open>entry.get(key, '')\<close> on an optional string field.\<close>

definition get_or_empty :: "string option \<Rightarrow> string" where
  "get_or_empty v = (case v of None \<Rightarrow> [] | Some s \<Rightarrow> s)"

text \<open>\<open>entry.title\<close>, \<open>entry.link\<close>: attribute access, which raises when the key is absent.\<close>

definition get_attr :: "string \<Rightarrow> string option \<Rightarrow> py_exception + string" where
  "get_attr name v =
     (case v of
        None \<Rightarrow> Inl (AttributeError (''object has no attribute '' @ [squote] @ name @ [squote]))
      | Some s \<Rightarrow> Inr s)"

text \<open>Line 45: the raw source title of an entry.\<close>

definition raw_source :: "entry \<Rightarrow> string" where
  "raw_source e =
     (case entry_source e of
        None \<Rightarrow> []
      | Some d \<Rightarrow> get_or_empty (source_title d))"

text \<open>Lines 46-47: keep the text before the first separator.\<close>

definition clean_source :: "string \<Rightarrow> py_exception + string" where
  "clean_source s =
     (if str_contains '' - '' s
      then (case str_split s '' - '' of Inl x \<Rightarrow> Inl x | Inr parts \<Rightarrow> list_index0 parts)
      else Inr s)"

text \<open>Lines 44-56: the body of the loop over the entries, for one entry.\<close>

definition parse_entry :: "entry \<Rightarrow> py_exception + article" where
  "parse_entry e =
     (case clean_source (raw_source e) of
        Inl x \<Rightarrow> Inl x
      | Inr src \<Rightarrow>
          (case get_attr ''title'' (entry_title e) of
             Inl x \<Rightarrow> Inl x
           | Inr t \<Rightarrow>
               (case get_attr ''link'' (entry_link e) of
                  Inl x \<Rightarrow> Inl x
                | Inr l \<Rightarrow>
                    Inr \<lparr>title = t, link = l,
                         published = get_or_empty (entry_published e),
                         source = src,
                         summary = get_or_empty (entry_summary e)\<rparr>)))"

text \<open>The loop of line 43, with the list \<open>articles\<close> it appends to.\<close>

fun parse_entries :: "entry list \<Rightarrow> article list \<Rightarrow> py_exception + article list" where
  "parse_entries [] articles = Inr articles"
| "parse_entries (e # es) articles =
     (case parse_entry e of
        Inl x \<Rightarrow> Inl x
      | Inr a \<Rightarrow> parse_entries es (articles @ [a]))"

text \<open>
  Lines 40-58, the body of the \<open>try\<close>. The feed parser is a collaborator: its answer for
  the URL is the parameter \<open>feedparser_parse\<close>.
\<close>

definition parse_rss_feed_try ::
  "(string \<Rightarrow> py_exception + feed) \<Rightarrow> string \<Rightarrow> py_exception + article list" where
  "parse_rss_feed_try feedparser_parse rss_url =
     (case feedparser_parse rss_url of
        Inl x \<Rightarrow> Inl x
      | Inr f \<Rightarrow> parse_entries (take MAX_ARTICLES (entries f)) [])"

text \<open>Lines 37-61: the \<open>except Exception\<close> handler around it. The result and what is printed.\<close>

definition parse_rss_feed ::
  "(string \<Rightarrow> py_exception + feed) \<Rightarrow> string \<Rightarrow> article list \<times> event list" where
  "parse_rss_feed feedparser_parse rss_url =
     (case parse_rss_feed_try feedparser_parse rss_url of
        Inl x \<Rightarrow> ([], [Print (''Error parsing RSS feed: '' @ exn_str x)])
      | Inr articles \<Rightarrow> (articles, []))"

section \<open>Feed Resolver: \<open>get_rss_feed_url\<close>\<close>

record response =
  status_code :: nat
  resp_text :: string

text \<open>\<open>response.raise_for_status()\<close>: client and server error codes raise.\<close>

definition raise_for_status :: "response \<Rightarrow> py_exception option" where
  "raise_for_status r =
     (if 400 \<le> status_code r \<and> status_code r < 600 then Some (HTTPError (status_code r))
      else None)"

text \<open>
  The parsed document: a tag has a name, its attributes and its children. The attributes
  are the tag's dictionary, as an association list.
\<close>

datatype html_node =
    Tag string "(string \<times> string) list" "html_node list"
  | NavigableString string

text \<open>All nodes below a node, in document order (\<open>Tag.descendants\<close>).\<close>

fun descendants :: "html_node \<Rightarrow> html_node list" where
  "descendants (Tag name attrs children) = concat (map (\<lambda>c. c # descendants c) children)"
| "descendants (NavigableString s) = []"

text \<open>The filter of line 25: a \<open>link\<close> tag whose \<open>type\<close> is \<open>application/rss+xml\<close>.\<close>

fun is_rss_link :: "html_node \<Rightarrow> bool" where
  "is_rss_link (Tag name attrs children) =
     (name = ''link'' \<and> map_of attrs ''type'' = Some ''application/rss+xml'')"
| "is_rss_link (NavigableString s) = False"

text \<open>\<open>soup.find(...)\<close>: the first matching descendant of the document, or \<open>None\<close>.\<close>

definition soup_find :: "html_node \<Rightarrow> html_node option" where
  "soup_find soup = List.find is_rss_link (descendants soup)"

text \<open>\<open>tag[key]\<close>: a lookup in the tag's attributes, raising \<open>KeyError\<close> on a missing key.\<close>

fun tag_getitem :: "html_node \<Rightarrow> string \<Rightarrow> py_exception + string" where
  "tag_getitem (Tag name attrs children) key =
     (case map_of attrs key of None \<Rightarrow> Inl (KeyError key) | Some v \<Rightarrow> Inr v)"
| "tag_getitem (NavigableString s) key = Inl (TypeError ''string indices must be integers'')"

subsection \<open>The regular expression of line 31\<close>

definition topics_prefix :: string where
  "topics_prefix = ''https://news.google.com/rss/topics/''"

definition is_quote :: "char \<Rightarrow> bool" where
  "is_quote c = (c = squote \<or> c = dquote)"

text \<open>
  The pattern matched at the very start of \<open>s\<close>: the literal prefix, then the longest run
  of one or more characters that are not quotes.
\<close>

definition match_at :: "string \<Rightarrow> string option" where
  "match_at s =
     (if prefix topics_prefix s
      then (let run = takeWhile (\<lambda>c. \<not> is_quote c) (drop (length topics_prefix) s)
            in if run = [] then None else Some (topics_prefix @ run))
      else None)"

text \<open>\<open>re.search\<close>: the match at the leftmost position that has one.\<close>

fun re_search :: "string \<Rightarrow> string option" where
  "re_search [] = match_at []"
| "re_search (c # cs) =
     (case match_at (c # cs) of Some m \<Rightarrow> Some m | None \<Rightarrow> re_search cs)"

text \<open>
  Lines 18-32, the body of the \<open>try\<close>. The HTTP GET and the HTML parser are
  collaborators, passed as parameters.
\<close>

definition get_rss_feed_url_try ::
  "(string \<Rightarrow> py_exception + response) \<Rightarrow> (string \<Rightarrow> html_node) \<Rightarrow> string
     \<Rightarrow> py_exception + string option" where
  "get_rss_feed_url_try requests_get html_parser topic_url =
     (case requests_get topic_url of
        Inl x \<Rightarrow> Inl x
      | Inr response \<Rightarrow>
          (case raise_for_status response of
             Some x \<Rightarrow> Inl x
           | None \<Rightarrow>
               (let soup = html_parser (resp_text response);
                    rss_link = soup_find soup
                in case rss_link of
                     Some tag \<Rightarrow>
                       (case tag_getitem tag ''href'' of
                          Inl x \<Rightarrow> Inl x
                        | Inr href \<Rightarrow> Inr (Some href))
                   | None \<Rightarrow> Inr (re_search (resp_text response)))))"

text \<open>Lines 15-35: the handler turns every exception into \<open>None\<close> and a printed line.\<close>

definition get_rss_feed_url ::
  "(string \<Rightarrow> py_exception + response) \<Rightarrow> (string \<Rightarrow> html_node) \<Rightarrow> string
     \<Rightarrow> string option \<times> event list" where
  "get_rss_feed_url requests_get html_parser topic_url =
     (case get_rss_feed_url_try requests_get html_parser topic_url of
        Inl x \<Rightarrow> (None, [Print (''Error getting RSS URL: '' @ exn_str x)])
      | Inr r \<Rightarrow> (r, []))"

section \<open>Configuration and the outside world\<close>

definition DEFAULT_NEWS_URL :: string where
  "DEFAULT_NEWS_URL =
     ''https://news.google.com/topics/CAAqJggKIiBDQkFTRWdvSUwyMHZNRGx1YlY4U0FtVnVHZ0pWVXlnQVAB?ceid=US:en&oc=3''"

definition os_getenv :: "(string \<Rightarrow> string option) \<Rightarrow> string \<Rightarrow> string \<Rightarrow> string" where
  "os_getenv environ name dflt = (case environ name of None \<Rightarrow> dflt | Some v \<Rightarrow> v)"

text \<open>Line 11. Line 13 is the constant \<open>MAX_ARTICLES\<close> above: it reads no variable.\<close>

definition NEWS_URL :: "(string \<Rightarrow> string option) \<Rightarrow> string" where
  "NEWS_URL environ = os_getenv environ ''NEWS_URL'' DEFAULT_NEWS_URL"

text \<open>
  Everything a run asks of its surroundings: the process environment, the network, the
  two parsers, the clock (already formatted) and the file system. A file-system call
  answers with the exception it raises, if any.
\<close>

record world =
  environ :: "string \<Rightarrow> string option"
  requests_get :: "string \<Rightarrow> py_exception + response"
  html_parser :: "string \<Rightarrow> html_node"
  feedparser_parse :: "string \<Rightarrow> py_exception + feed"
  beijing_date :: string
  now_str :: string
  os_makedirs :: "string \<Rightarrow> py_exception option"
  open_write :: "string \<Rightarrow> py_exception option"
  file_write :: "string \<Rightarrow> py_exception option"
  os_listdir :: "string \<Rightarrow> py_exception + string list"
  load_article_count :: "string \<Rightarrow> py_exception + nat"

definition path_join :: "string \<Rightarrow> string \<Rightarrow> string" where
  "path_join a b =
     (if prefix ''/'' b then b
      else if a = [] \<or> suffix ''/'' a then a @ b
      else a @ ''/'' @ b)"

section \<open>The summary index: \<open>update_readme\<close>\<close>

text \<open>Lines 99-100: the two lines written for the article numbered \<open>i\<close>.\<close>

definition top_news_entry :: "nat \<Rightarrow> article \<Rightarrow> string" where
  "top_news_entry i a =
     str_nat i @ ''. ['' @ title a @ ''](''  @ link a @ '') - *'' @ source a @ ''*'' @ [newline]
     @ ''   > '' @ take 150 (summary a) @ ''...'' @ [newline, newline]"

text \<open>The loop of line 98 over \<open>enumerate(articles[:5], 1)\<close>, appending to the content.\<close>

fun top_news_loop :: "nat \<Rightarrow> article list \<Rightarrow> string \<Rightarrow> string" where
  "top_news_loop i [] markdown_content = markdown_content"
| "top_news_loop i (a # as) markdown_content =
     top_news_loop (Suc i) as (markdown_content @ top_news_entry i a)"

text \<open>The loop of lines 108-112 over the sorted file names.\<close>

fun history_loop ::
  "(string \<Rightarrow> py_exception + nat) \<Rightarrow> string list \<Rightarrow> string \<Rightarrow> py_exception + string" where
  "history_loop load_count [] markdown_content = Inr markdown_content"
| "history_loop load_count (file # files) markdown_content =
     (if prefix ''google-news-'' file \<and> suffix ''.json'' file
      then (let date = drop 12 (take (length file - 5) file)
            in case load_count (path_join OUTPUT_DIR file) of
                 Inl x \<Rightarrow> Inl x
               | Inr article_count \<Rightarrow>
                   history_loop load_count files
                     (markdown_content @ ''| '' @ date @ '' | '' @ str_nat article_count
                        @ '' articles | [View]('' @ path_join OUTPUT_DIR file @ '') |''
                        @ [newline]))
      else history_loop load_count files markdown_content)"

text \<open>Lines 93-105: the content built before the table rows are added.\<close>

definition readme_top :: "world \<Rightarrow> article list \<Rightarrow> string \<Rightarrow> string" where
  "readme_top w articles date_str =
     (let md0 = ''# Google News Daily Archive'' @ [newline, newline];
          md1 = md0 @ ''**Last Updated**: '' @ now_str w @ '' (UTC)'' @ [newline, newline];
          md2 = md1 @ ''## Today'' @ [squote] @ ''s Top News ('' @ date_str @ '')''
                  @ [newline, newline];
          md3 = top_news_loop 1 (take 5 articles) md2;
          md4 = md3 @ [newline] @ ''[View all articles for '' @ date_str
                  @ ''](news/google-news-'' @ date_str @ ''.json)'' @ [newline, newline];
          md5 = md4 @ ''## Historical Data'' @ [newline];
          md6 = md5 @ ''| Date | Articles | View |'' @ [newline]
      in md6 @ ''|------|----------|------|'' @ [newline])"

text \<open>Lines 93-115, the body of the \<open>try\<close>: the events so far and the exception, if any.\<close>

definition update_readme_try ::
  "world \<Rightarrow> article list \<Rightarrow> string \<Rightarrow> event list \<times> py_exception option" where
  "update_readme_try w articles date_str =
     (let readme_path = ''README.md'';
          md7 = readme_top w articles date_str
      in case os_listdir w OUTPUT_DIR of
           Inl x \<Rightarrow> ([], Some x)
         | Inr files \<Rightarrow>
             (case history_loop (load_article_count w) (rev (sort files)) md7 of
                Inl x \<Rightarrow> ([], Some x)
              | Inr md8 \<Rightarrow>
                  (case open_write w readme_path of
                     Some x \<Rightarrow> ([], Some x)
                   | None \<Rightarrow>
                       (case file_write w readme_path of
                          Some x \<Rightarrow> ([OpenWrite readme_path], Some x)
                        | None \<Rightarrow>
                            ([OpenWrite readme_path, WriteText readme_path md8], None)))))"

text \<open>Lines 90-117: the handler prints the exception and returns normally.\<close>

definition update_readme :: "world \<Rightarrow> article list \<Rightarrow> string \<Rightarrow> event list" where
  "update_readme w articles date_str =
     (case update_readme_try w articles date_str of
        (evs, Some x) \<Rightarrow> evs @ [Print (''Error updating README: '' @ exn_str x)]
      | (evs, None) \<Rightarrow> evs)"

section \<open>The snapshot: \<open>save_news_data\<close>\<close>

text \<open>Lines 66-86, the body of the \<open>try\<close>.\<close>

definition save_news_data_try ::
  "world \<Rightarrow> article list \<Rightarrow> event list \<times> py_exception option" where
  "save_news_data_try w articles =
     (case os_makedirs w OUTPUT_DIR of
        Some x \<Rightarrow> ([], Some x)
      | None \<Rightarrow>
          (let date_str = beijing_date w;
               json_file = path_join OUTPUT_DIR (''google-news-'' @ date_str @ ''.json'')
           in case open_write w json_file of
                Some x \<Rightarrow> ([MakeDirs OUTPUT_DIR], Some x)
              | None \<Rightarrow>
                  (case file_write w json_file of
                     Some x \<Rightarrow> ([MakeDirs OUTPUT_DIR, OpenWrite json_file], Some x)
                   | None \<Rightarrow>
                       ([MakeDirs OUTPUT_DIR, OpenWrite json_file,
                         WriteSnapshot json_file
                           \<lparr>snap_date = date_str, snap_source_url = NEWS_URL (environ w),
                            snap_articles = articles\<rparr>]
                        @ update_readme w articles date_str
                        @ [Print (''Successfully saved '' @ str_nat (length articles)
                                    @ '' articles for '' @ date_str)],
                        None))))"

text \<open>Lines 63-88.\<close>

definition save_news_data :: "world \<Rightarrow> article list \<Rightarrow> event list" where
  "save_news_data w articles =
     (case save_news_data_try w articles of
        (evs, Some x) \<Rightarrow> evs @ [Print (''Error saving news data: '' @ exn_str x)]
      | (evs, None) \<Rightarrow> evs)"

section \<open>The driver (lines 119-141)\<close>

text \<open>
  The exit code of the process and everything it did. \<open>exit(1)\<close> ends the run at once;
  reaching the end of the script ends it with code 0. \<open>not rss_url\<close> holds for \<open>None\<close>
  and for the empty string, \<open>not articles\<close> for the empty list.
\<close>

definition main :: "world \<Rightarrow> nat \<times> event list" where
  "main w =
     (let url = NEWS_URL (environ w);
          out0 = [Print ''Starting Google News scraper...'', Print (''Target URL: '' @ url)];
          (rss_url, log1) = get_rss_feed_url (requests_get w) (html_parser w) url;
          out1 = out0 @ log1;
          failed = (1, out1 @ [Print ''Failed to find RSS feed URL''])
      in case rss_url of
           None \<Rightarrow> failed
         | Some u \<Rightarrow>
             if u = [] then failed
             else
               (let out2 = out1 @ [Print (''Found RSS feed: '' @ u)];
                    (articles, log2) = parse_rss_feed (feedparser_parse w) u;
                    out3 = out2 @ log2
                in if articles = [] then (1, out3 @ [Print ''No articles found in RSS feed''])
                   else
                     (0, out3 @ [Print (''Found '' @ str_nat (length articles) @ '' articles'')]
                           @ save_news_data w articles
                           @ [Print ''Scraping completed successfully''])))"

section \<open>Sample surroundings\<close>

text \<open>
  A run in which everything works: no variable is set, the page carries one feed link,
  the feed has one entry, and the file system accepts every call.
\<close>

definition sample_entry :: "string \<Rightarrow> entry" where
  "sample_entry t =
     \<lparr>entry_title = Some t, entry_link = Some (''https://example.org/'' @ t),
      entry_published = Some ''Wed, 01 May 2024 08:00:00 GMT'',
      entry_source = Some \<lparr>source_title = Some ''Reuters - Asia Edition''\<rparr>,
      entry_summary = Some ''<b>Hi</b> there''\<rparr>"

definition sample_world :: world where
  "sample_world =
     \<lparr>environ = (\<lambda>name. None),
      requests_get = (\<lambda>u. Inr \<lparr>status_code = 200,
         resp_text = ''<link type=application/rss+xml href=https://news.example/rss>''\<rparr>),
      html_parser = (\<lambda>t. Tag ''[document]'' []
         [Tag ''link'' [(''type'', ''application/rss+xml''), (''href'', ''https://news.example/rss'')]
            []]),
      feedparser_parse = (\<lambda>u. Inr \<lparr>entries = [sample_entry ''a'']\<rparr>),
      beijing_date = ''2024-05-01'',
      now_str = ''2024-04-30 18:00:00'',
      os_makedirs = (\<lambda>path. None),
      open_write = (\<lambda>path. None),
      file_write = (\<lambda>path. None),
      os_listdir = (\<lambda>path. Inr [''google-news-2024-05-01.json'']),
      load_article_count = (\<lambda>path. Inr 1)\<rparr>"

section \<open>Facts about the string operations\<close>

lemma str_contains_sublist: "str_contains sep s = sublist sep s"
  by (induction s) (auto simp: sublist_Cons_right)

lemma first_by_sublist:
  assumes ns: "\<not> sublist sep (a @ butlast sep)" and eq: "a @ sep @ b = a' @ sep @ b'"
  shows "length a \<le> length a'"
proof (rule ccontr)
  assume "\<not> length a \<le> length a'"
  then have lt: "length a' < length a" by simp
  from ns have sne: "sep \<noteq> []" by auto
  define c where "c = drop (length a') a"
  from eq have "take (length a') (a @ sep @ b) = take (length a') (a' @ sep @ b')" by simp
  with lt have a': "a' = take (length a') a" by simp
  then have a: "a = a' @ c" unfolding c_def by (metis append_take_drop_id)
  from lt have cne: "c \<noteq> []" unfolding c_def by simp
  from eq a have "c @ sep @ b = sep @ b'" by simp
  then have "take (length sep) (c @ sep @ b) = sep" by simp
  moreover have "c @ sep @ b = (c @ butlast sep) @ ([last sep] @ b)"
    using sne by simp
  moreover have "length sep \<le> length (c @ butlast sep)"
    using cne sne by (cases c) auto
  ultimately have "take (length sep) (c @ butlast sep) = sep"
    by (metis take_append diff_is_0_eq take_0 append.right_neutral)
  then have "prefix sep (c @ butlast sep)" by (metis take_is_prefix)
  then have "sublist sep (a' @ c @ butlast sep)"
    by (metis prefix_imp_sublist sublist_append_leftI sublist_order.order_trans)
  with ns a show False by simp
qed

lemma split_from_first:
  assumes "sep \<noteq> []"
    and "\<forall>a' b'. a @ sep @ b = a' @ sep @ b' \<longrightarrow> length a \<le> length a'"
  shows "\<exists>rest. split_from sep cur (a @ sep @ b) = (cur @ a) # rest"
  using assms
proof (induction a arbitrary: cur)
  case Nil
  then show ?case by (simp add: split_from.simps)
next
  case (Cons x a)
  have np: "\<not> prefix sep ((x # a) @ sep @ b)"
  proof
    assume "prefix sep ((x # a) @ sep @ b)"
    then obtain b' where "(x # a) @ sep @ b = [] @ sep @ b'" by (auto simp: prefix_def)
    with Cons.prems(2) have "length (x # a) \<le> length ([]::string)" by blast
    then show False by simp
  qed
  have m: "\<forall>a' b'. a @ sep @ b = a' @ sep @ b' \<longrightarrow> length a \<le> length a'"
  proof (intro allI impI)
    fix a' b' assume "a @ sep @ b = a' @ sep @ b'"
    then have "(x # a) @ sep @ b = (x # a') @ sep @ b'" by simp
    with Cons.prems(2) have "length (x # a) \<le> length (x # a')" by blast
    then show "length a \<le> length a'" by simp
  qed
  from Cons.IH[OF Cons.prems(1) m, of "cur @ [x]"] np show ?case
    by (subst split_from.simps) simp
qed

lemma split_from_nonempty: "split_from sep cur s \<noteq> []"
proof (induction sep cur s rule: split_from.induct)
  case (1 sep cur s)
  then show ?case
    by (subst split_from.simps) (auto split: list.splits)
qed

lemma clean_source_no_sep: "\<not> sublist '' - '' s \<Longrightarrow> clean_source s = Inr s"
  by (simp add: clean_source_def str_contains_sublist)

lemma clean_source_first:
  assumes "\<forall>a' b'. a @ '' - '' @ b = a' @ '' - '' @ b' \<longrightarrow> length a \<le> length a'"
  shows "clean_source (a @ '' - '' @ b) = Inr a"
proof -
  have "sublist '' - '' (a @ '' - '' @ b)" by (rule sublist_appendI)
  moreover obtain rest where "split_from '' - '' [] (a @ '' - '' @ b) = a # rest"
    using split_from_first[of "'' - ''" a b "[]"] assms by auto
  ultimately show ?thesis
    by (simp add: clean_source_def str_contains_sublist str_split_def list_index0_def)
qed

lemma clean_source_total: "\<exists>r. clean_source s = Inr r"
  using split_from_nonempty[of "'' - ''" "[]" s]
  by (auto simp: clean_source_def str_split_def list_index0_def split: list.splits)

lemma parse_entry_Inr_iff:
  "parse_entry e = Inr a \<longleftrightarrow>
     (\<exists>t l. entry_title e = Some t \<and> entry_link e = Some l \<and>
        a = \<lparr>title = t, link = l, published = get_or_empty (entry_published e),
             source = projr (clean_source (raw_source e)),
             summary = get_or_empty (entry_summary e)\<rparr>)"
  using clean_source_total[of "raw_source e"]
  by (auto simp: parse_entry_def get_attr_def split: sum.splits option.splits)

lemma parse_entry_fails:
  "entry_title e = None \<or> entry_link e = None \<Longrightarrow> \<exists>x. parse_entry e = Inl x"
  by (auto simp: parse_entry_def get_attr_def split: sum.splits option.splits)

lemma parse_entries_Inr_iff:
  "parse_entries es acc = Inr r \<longleftrightarrow>
     (\<exists>as. r = acc @ as \<and> list_all2 (\<lambda>e a. parse_entry e = Inr a) es as)"
proof (induction es arbitrary: acc)
  case Nil
  then show ?case by auto
next
  case (Cons e es)
  show ?case
  proof (cases "parse_entry e")
    case (Inl x)
    then show ?thesis by (auto simp: list_all2_Cons1)
  next
    case (Inr a)
    then show ?thesis by (auto simp: Cons.IH list_all2_Cons1)
  qed
qed

lemma parse_entries_fails:
  "e \<in> set es \<Longrightarrow> parse_entry e = Inl x \<Longrightarrow> \<exists>y. parse_entries es acc = Inl y"
proof (induction es arbitrary: acc)
  case Nil
  then show ?case by simp
next
  case (Cons e' es)
  then show ?case by (cases "parse_entry e'") auto
qed

lemma parse_entries_all_ok:
  assumes "\<forall>e \<in> set es. entry_title e \<noteq> None \<and> entry_link e \<noteq> None"
  shows "\<exists>as. parse_entries es [] = Inr as \<and> list_all2 (\<lambda>e a. parse_entry e = Inr a) es as"
proof -
  have "\<forall>e \<in> set es. \<exists>a. parse_entry e = Inr a"
    using assms by (auto simp: parse_entry_Inr_iff)
  then have "\<exists>as. list_all2 (\<lambda>e a. parse_entry e = Inr a) es as"
    by (induction es) (auto simp: list_all2_Cons1)
  then show ?thesis by (auto simp: parse_entries_Inr_iff)
qed

section \<open>Feed Normalizer\<close>

lemma parse_rss_feed_ok:
  assumes "fp rss_url = Inr f"
    and "\<forall>e \<in> set (take MAX_ARTICLES (entries f)). entry_title e \<noteq> None \<and> entry_link e \<noteq> None"
  shows "list_all2 (\<lambda>e a. parse_entry e = Inr a) (take MAX_ARTICLES (entries f))
           (fst (parse_rss_feed fp rss_url))"
  using parse_entries_all_ok[OF assms(2)] assms(1)
  by (auto simp: parse_rss_feed_def parse_rss_feed_try_def)

text \<open>
  Claim C2. The \<open>source\<close> field of the record made from an entry: empty when the entry
  has no source title (no source object, or a source object without a title); the title
  unchanged when it does not contain \<open>" - "\<close>; and the text before the first occurrence
  of \<open>" - "\<close> otherwise, the first occurrence being the one with the shortest text in
  front of it.
\<close>

theorem source_field_normalized:
  assumes "parse_entry e = Inr r"
  shows "(entry_source e = None \<or> (\<exists>d. entry_source e = Some d \<and> source_title d = None)
            \<longrightarrow> source r = [])
       \<and> (\<forall>d t. entry_source e = Some d \<and> source_title d = Some t \<and> \<not> sublist '' - '' t
            \<longrightarrow> source r = t)
       \<and> (\<forall>d a b. entry_source e = Some d \<and> source_title d = Some (a @ '' - '' @ b)
              \<and> (\<forall>a' b'. a @ '' - '' @ b = a' @ '' - '' @ b' \<longrightarrow> length a \<le> length a')
            \<longrightarrow> source r = a)"
proof -
  from assms have src: "clean_source (raw_source e) = Inr (source r)"
    by (auto simp: parse_entry_def split: sum.splits)
  have none: "source r = []"
    if "entry_source e = None \<or> (\<exists>d. entry_source e = Some d \<and> source_title d = None)"
  proof -
    from that have "raw_source e = []" by (auto simp: raw_source_def get_or_empty_def)
    with src show ?thesis by (simp add: clean_source_def)
  qed
  have plain: "source r = t"
    if "entry_source e = Some d" "source_title d = Some t" "\<not> sublist '' - '' t" for d t
  proof -
    from that have "raw_source e = t" by (simp add: raw_source_def get_or_empty_def)
    with src that(3) show ?thesis by (simp add: clean_source_no_sep)
  qed
  have cut: "source r = a"
    if "entry_source e = Some d" "source_title d = Some (a @ '' - '' @ b)"
      "\<forall>a' b'. a @ '' - '' @ b = a' @ '' - '' @ b' \<longrightarrow> length a \<le> length a'" for d a b
  proof -
    from that have "raw_source e = a @ '' - '' @ b" by (simp add: raw_source_def get_or_empty_def)
    with src clean_source_first[OF that(3)] show ?thesis by simp
  qed
  from none plain cut show ?thesis by blast
qed

text \<open>The title \<open>Reuters - Asia Edition\<close> yields exactly \<open>Reuters\<close>.\<close>

theorem source_field_normalized_witness:
  "parse_entry \<lparr>entry_title = Some ''Markets rally'', entry_link = Some ''https://example.org/a'',
      entry_published = None,
      entry_source = Some \<lparr>source_title = Some (''Reuters'' @ '' - '' @ ''Asia Edition'')\<rparr>,
      entry_summary = None\<rparr>
     = Inr \<lparr>title = ''Markets rally'', link = ''https://example.org/a'', published = [],
           source = ''Reuters'', summary = []\<rparr>
   \<and> \<not> sublist '' - '' (''Reuters'' @ butlast '' - '')"
proof -
  let ?e = "\<lparr>entry_title = Some ''Markets rally'', entry_link = Some ''https://example.org/a'',
      entry_published = None,
      entry_source = Some \<lparr>source_title = Some (''Reuters'' @ '' - '' @ ''Asia Edition'')\<rparr>,
      entry_summary = None\<rparr>"
  have ns: "\<not> sublist '' - '' (''Reuters'' @ butlast '' - '')"
    by (simp add: sublist_Cons_right)
  have first: "\<forall>a' b'. ''Reuters'' @ '' - '' @ ''Asia Edition'' = a' @ '' - '' @ b'
         \<longrightarrow> length ''Reuters'' \<le> length a'"
  proof (intro allI impI)
    fix a' b' :: string
    assume eq: "''Reuters'' @ '' - '' @ ''Asia Edition'' = a' @ '' - '' @ b'"
    from first_by_sublist[OF ns eq] show "length ''Reuters'' \<le> length a'" .
  qed
  obtain r where r: "parse_entry ?e = Inr r"
    by (auto simp: parse_entry_Inr_iff)
  from source_field_normalized[OF r] first have "source r = ''Reuters''"
    by simp
  with r ns show ?thesis
    by (auto simp: parse_entry_Inr_iff get_or_empty_def)
qed

text \<open>
  Claim C1, as amended. When the feed parser answers with a feed and each of the first 20
  entries has a title and a link, the normalizer returns \<open>min N 20\<close> records, and the
  record at position \<open>i\<close> is the one made from the entry at position \<open>i\<close>.
\<close>

theorem parse_rss_feed_count_order:
  assumes "fp rss_url = Inr f"
    and "\<forall>e \<in> set (take MAX_ARTICLES (entries f)). entry_title e \<noteq> None \<and> entry_link e \<noteq> None"
  shows "length (fst (parse_rss_feed fp rss_url)) = min (length (entries f)) 20
       \<and> (\<forall>i < min (length (entries f)) 20.
             parse_entry (entries f ! i) = Inr (fst (parse_rss_feed fp rss_url) ! i)
           \<and> entry_title (entries f ! i) = Some (title (fst (parse_rss_feed fp rss_url) ! i))
           \<and> entry_link (entries f ! i) = Some (link (fst (parse_rss_feed fp rss_url) ! i)))"
proof -
  let ?r = "fst (parse_rss_feed fp rss_url)"
  from parse_rss_feed_ok[of fp rss_url f, OF assms]
  have all2: "list_all2 (\<lambda>e a. parse_entry e = Inr a) (take MAX_ARTICLES (entries f)) ?r" .
  then have len: "length ?r = min (length (entries f)) 20"
    by (auto simp: list_all2_lengthD[symmetric] MAX_ARTICLES_def)
  have nth: "parse_entry (entries f ! i) = Inr (?r ! i)" if "i < min (length (entries f)) 20" for i
    using list_all2_nthD[OF all2, of i] that by (simp add: MAX_ARTICLES_def)
  have fields: "entry_title (entries f ! i) = Some (title (?r ! i))
      \<and> entry_link (entries f ! i) = Some (link (?r ! i))"
    if "i < min (length (entries f)) 20" for i
    using nth[OF that] by (auto simp: parse_entry_Inr_iff)
  from len nth fields show ?thesis by blast
qed

theorem parse_rss_feed_count_order_witness:
  "(\<lambda>u. Inr \<lparr>entries =
       [\<lparr>entry_title = Some ''A'', entry_link = Some ''https://example.org/a'',
          entry_published = None, entry_source = None, entry_summary = None\<rparr>,
        \<lparr>entry_title = Some ''B'', entry_link = Some ''https://example.org/b'',
          entry_published = Some ''Mon'', entry_source = None, entry_summary = Some ''s''\<rparr>]\<rparr>)
     ''feed'' = (Inr \<lparr>entries =
       [\<lparr>entry_title = Some ''A'', entry_link = Some ''https://example.org/a'',
          entry_published = None, entry_source = None, entry_summary = None\<rparr>,
        \<lparr>entry_title = Some ''B'', entry_link = Some ''https://example.org/b'',
          entry_published = Some ''Mon'', entry_source = None, entry_summary = Some ''s''\<rparr>]\<rparr>
       :: py_exception + feed)
   \<and> length (fst (parse_rss_feed (\<lambda>u. Inr \<lparr>entries =
       [\<lparr>entry_title = Some ''A'', entry_link = Some ''https://example.org/a'',
          entry_published = None, entry_source = None, entry_summary = None\<rparr>,
        \<lparr>entry_title = Some ''B'', entry_link = Some ''https://example.org/b'',
          entry_published = Some ''Mon'', entry_source = None, entry_summary = Some ''s''\<rparr>]\<rparr>)
       ''feed'')) = 2"
  using parse_rss_feed_count_order[of "\<lambda>u. Inr \<lparr>entries =
       [\<lparr>entry_title = Some ''A'', entry_link = Some ''https://example.org/a'',
          entry_published = None, entry_source = None, entry_summary = None\<rparr>,
        \<lparr>entry_title = Some ''B'', entry_link = Some ''https://example.org/b'',
          entry_published = Some ''Mon'', entry_source = None, entry_summary = Some ''s''\<rparr>]\<rparr>"
       "''feed''" "\<lparr>entries =
       [\<lparr>entry_title = Some ''A'', entry_link = Some ''https://example.org/a'',
          entry_published = None, entry_source = None, entry_summary = None\<rparr>,
        \<lparr>entry_title = Some ''B'', entry_link = Some ''https://example.org/b'',
          entry_published = Some ''Mon'', entry_source = None, entry_summary = Some ''s''\<rparr>]\<rparr>"]
  by (simp add: MAX_ARTICLES_def)

text \<open>
  As stated, for every feed, the count fails: a feed of one entry without a title gives no
  record at all, not \<open>min 1 20 = 1\<close>.
\<close>

theorem parse_rss_feed_count_counterexample:
  "length (fst (parse_rss_feed (\<lambda>u. Inr \<lparr>entries =
       [\<lparr>entry_title = None, entry_link = Some ''https://example.org/a'',
          entry_published = None, entry_source = None, entry_summary = None\<rparr>]\<rparr>) ''feed''))
   \<noteq> min (length (entries \<lparr>entries =
       [\<lparr>entry_title = None, entry_link = Some ''https://example.org/a'',
          entry_published = None, entry_source = None, entry_summary = None\<rparr>]\<rparr>)) 20"
  by (simp add: parse_rss_feed_def parse_rss_feed_try_def MAX_ARTICLES_def parse_entry_def
      raw_source_def clean_source_def get_attr_def)

text \<open>
  Claim C5. The normalizer always returns a list: when the feed parser raises, or when one
  of the entries taken lacks its title or its link, the result is the empty list, whatever
  the other entries are; and every exception of the body is turned into the empty list and
  a printed line.
\<close>

theorem parse_rss_feed_failure_empty:
  "(\<forall>x. fp rss_url = Inl x \<longrightarrow> fst (parse_rss_feed fp rss_url) = [])
   \<and> (\<forall>f. fp rss_url = Inr f
          \<and> (\<exists>e \<in> set (take MAX_ARTICLES (entries f)). entry_title e = None \<or> entry_link e = None)
        \<longrightarrow> fst (parse_rss_feed fp rss_url) = [])
   \<and> (\<forall>x. parse_rss_feed_try fp rss_url = Inl x
        \<longrightarrow> parse_rss_feed fp rss_url = ([], [Print (''Error parsing RSS feed: '' @ exn_str x)]))"
proof -
  have a: "fst (parse_rss_feed fp rss_url) = []" if "fp rss_url = Inl x" for x
    using that by (simp add: parse_rss_feed_def parse_rss_feed_try_def)
  have b: "fst (parse_rss_feed fp rss_url) = []"
    if "fp rss_url = Inr f"
      "\<exists>e \<in> set (take MAX_ARTICLES (entries f)). entry_title e = None \<or> entry_link e = None" for f
  proof -
    from that(2) obtain e where e: "e \<in> set (take MAX_ARTICLES (entries f))"
      and "entry_title e = None \<or> entry_link e = None" by blast
    then obtain x where "parse_entry e = Inl x" using parse_entry_fails by blast
    from parse_entries_fails[OF e this] obtain y
      where "parse_entries (take MAX_ARTICLES (entries f)) [] = Inl y" by blast
    with that(1) show ?thesis by (simp add: parse_rss_feed_def parse_rss_feed_try_def)
  qed
  have c: "parse_rss_feed fp rss_url = ([], [Print (''Error parsing RSS feed: '' @ exn_str x)])"
    if "parse_rss_feed_try fp rss_url = Inl x" for x
    using that by (simp add: parse_rss_feed_def)
  from a b c show ?thesis by blast
qed

theorem parse_rss_feed_failure_empty_witness:
  "fst (parse_rss_feed (\<lambda>u. Inr \<lparr>entries =
       [\<lparr>entry_title = Some ''A'', entry_link = Some ''https://example.org/a'',
          entry_published = None, entry_source = None, entry_summary = None\<rparr>,
        \<lparr>entry_title = Some ''B'', entry_link = None,
          entry_published = None, entry_source = None, entry_summary = None\<rparr>,
        \<lparr>entry_title = Some ''C'', entry_link = Some ''https://example.org/c'',
          entry_published = None, entry_source = None, entry_summary = None\<rparr>]\<rparr>) ''feed'') = []
   \<and> fst (parse_rss_feed (\<lambda>u. Inl (ValueError ''bad feed'')) ''feed'') = []"
  using parse_rss_feed_failure_empty[of "\<lambda>u. Inr \<lparr>entries =
       [\<lparr>entry_title = Some ''A'', entry_link = Some ''https://example.org/a'',
          entry_published = None, entry_source = None, entry_summary = None\<rparr>,
        \<lparr>entry_title = Some ''B'', entry_link = None,
          entry_published = None, entry_source = None, entry_summary = None\<rparr>,
        \<lparr>entry_title = Some ''C'', entry_link = Some ''https://example.org/c'',
          entry_published = None, entry_source = None, entry_summary = None\<rparr>]\<rparr>" "''feed''"]
    parse_rss_feed_failure_empty[of "\<lambda>u. Inl (ValueError ''bad feed'')" "''feed''"]
  by (simp add: MAX_ARTICLES_def)

section \<open>Feed Resolver\<close>

lemma find_first:
  "(\<forall>y \<in> set pre. \<not> P y) \<Longrightarrow> P x \<Longrightarrow> List.find P (pre @ x # post) = Some x"
  by (induction pre) auto

lemma soup_find_first:
  assumes "descendants soup = pre @ tag # post" and "\<forall>n \<in> set pre. \<not> is_rss_link n"
    and "is_rss_link tag"
  shows "soup_find soup = Some tag"
  using assms by (simp add: soup_find_def find_first)

lemma soup_find_none:
  "(\<forall>n \<in> set (descendants soup). \<not> is_rss_link n) \<Longrightarrow> soup_find soup = None"
  by (simp add: soup_find_def find_None_iff)

lemma match_at_here:
  assumes "ident \<noteq> []" and "\<forall>c \<in> set ident. \<not> is_quote c"
    and "rest = [] \<or> (\<exists>q rest'. rest = q # rest' \<and> is_quote q)"
  shows "match_at (topics_prefix @ ident @ rest) = Some (topics_prefix @ ident)"
proof -
  have "takeWhile (\<lambda>c. \<not> is_quote c) rest = []"
    using assms(3) by auto
  with assms(2) have "takeWhile (\<lambda>c. \<not> is_quote c) (ident @ rest) = ident"
    by (simp add: takeWhile_append2)
  with assms(1) show ?thesis by (simp add: match_at_def)
qed

lemma match_at_SomeD:
  assumes "match_at s = Some m"
  shows "\<exists>c rest. s = topics_prefix @ c # rest \<and> \<not> is_quote c"
proof -
  from assms have p: "prefix topics_prefix s"
    and run: "takeWhile (\<lambda>c. \<not> is_quote c) (drop (length topics_prefix) s) \<noteq> []"
    by (auto simp: match_at_def Let_def split: if_splits)
  from p obtain t where s: "s = topics_prefix @ t" by (auto simp: prefix_def)
  with run have "takeWhile (\<lambda>c. \<not> is_quote c) t \<noteq> []" by simp
  then obtain c rest where "t = c # rest" "\<not> is_quote c"
    by (cases t) (auto split: if_splits)
  with s show ?thesis by blast
qed

lemma re_search_first:
  assumes "match_at rest = Some m"
    and "\<forall>k < length pre. match_at (drop k (pre @ rest)) = None"
  shows "re_search (pre @ rest) = Some m"
  using assms
proof (induction pre)
  case Nil
  then show ?case by (cases rest) auto
next
  case (Cons x pre)
  from Cons.prems(2) have "match_at (drop 0 ((x # pre) @ rest)) = None" by blast
  then have here: "match_at (x # pre @ rest) = None" by simp
  have "\<forall>k < length pre. match_at (drop k (pre @ rest)) = None"
  proof (intro allI impI)
    fix k assume "k < length pre"
    then have "Suc k < length (x # pre)" by simp
    with Cons.prems(2) have "match_at (drop (Suc k) ((x # pre) @ rest)) = None" by blast
    then show "match_at (drop k (pre @ rest)) = None" by simp
  qed
  from Cons.IH[OF Cons.prems(1) this] here show ?case by simp
qed

lemma re_search_none:
  "(\<forall>sfx. suffix sfx s \<longrightarrow> match_at sfx = None) \<Longrightarrow> re_search s = None"
proof (induction s)
  case Nil
  then show ?case by simp
next
  case (Cons c cs)
  then have "match_at (c # cs) = None" by blast
  moreover have "re_search cs = None"
    using Cons by (auto intro: suffix_ConsI)
  ultimately show ?case by simp
qed

lemma re_search_leftmost:
  assumes "ident \<noteq> []" and "\<forall>c \<in> set ident. \<not> is_quote c"
    and "rest = [] \<or> (\<exists>q rest'. rest = q # rest' \<and> is_quote q)"
    and first: "\<forall>pre' c rest'. pre @ topics_prefix @ ident @ rest = pre' @ topics_prefix @ c # rest'
                  \<and> \<not> is_quote c \<longrightarrow> length pre \<le> length pre'"
  shows "re_search (pre @ topics_prefix @ ident @ rest) = Some (topics_prefix @ ident)"
proof -
  define s where "s = pre @ topics_prefix @ ident @ rest"
  have "match_at (drop k s) = None" if "k < length pre" for k
  proof (rule ccontr)
    assume "match_at (drop k s) \<noteq> None"
    then obtain m where "match_at (drop k s) = Some m" by auto
    from match_at_SomeD[OF this] obtain c rest'
      where d: "drop k s = topics_prefix @ c # rest'" and nq: "\<not> is_quote c" by blast
    have "s = take k s @ drop k s" by (simp only: append_take_drop_id)
    with d have "s = take k s @ topics_prefix @ c # rest'" by (simp only:)
    with first nq have "length pre \<le> length (take k s)" unfolding s_def[symmetric] by blast
    moreover have "length pre \<le> length s" by (simp add: s_def)
    ultimately show False using that by simp
  qed
  then have "\<forall>k < length pre. match_at (drop k (pre @ (topics_prefix @ ident @ rest))) = None"
    by (simp add: s_def)
  from re_search_first[OF match_at_here[OF assms(1-3)] this] show ?thesis .
qed

lemma re_search_absent:
  assumes "\<not> (\<exists>pre c rest. s = pre @ topics_prefix @ c # rest \<and> \<not> is_quote c)"
  shows "re_search s = None"
proof (rule re_search_none, intro allI impI)
  fix sfx assume sfx: "suffix sfx s"
  show "match_at sfx = None"
  proof (rule ccontr)
    assume "match_at sfx \<noteq> None"
    then obtain m where "match_at sfx = Some m" by auto
    from match_at_SomeD[OF this] obtain c rest
      where "sfx = topics_prefix @ c # rest" "\<not> is_quote c" by blast
    moreover from sfx obtain pre where "s = pre @ sfx" by (auto simp: suffix_def)
    ultimately show False using assms by blast
  qed
qed

lemma get_rss_feed_url_link:
  assumes "get topic_url = Inr resp" and "raise_for_status resp = None"
    and "soup_find (parser (resp_text resp)) = Some tag"
  shows "get_rss_feed_url get parser topic_url =
     (case tag_getitem tag ''href'' of
        Inl x \<Rightarrow> (None, [Print (''Error getting RSS URL: '' @ exn_str x)])
      | Inr href \<Rightarrow> (Some href, []))"
  using assms
  by (simp add: get_rss_feed_url_def get_rss_feed_url_try_def split: sum.splits)

lemma get_rss_feed_url_fallback:
  assumes "get topic_url = Inr resp" and "raise_for_status resp = None"
    and "soup_find (parser (resp_text resp)) = None"
  shows "get_rss_feed_url get parser topic_url = (re_search (resp_text resp), [])"
  using assms
  by (simp add: get_rss_feed_url_def get_rss_feed_url_try_def)

text \<open>
  Claim C3, as amended. When the page is fetched and the first \<open>link\<close> element of type
  \<open>application/rss+xml\<close> in document order has an \<open>href\<close> attribute with value
  \<open>X\<close>, the resolver returns exactly \<open>X\<close> and prints nothing, whatever else the
  document and the raw text contain.
\<close>

theorem resolver_first_rss_link_href:
  assumes "get topic_url = Inr resp" and "raise_for_status resp = None"
    and "descendants (parser (resp_text resp)) = pre @ Tag ''link'' attrs children # post"
    and "\<forall>n \<in> set pre. \<not> is_rss_link n"
    and "map_of attrs ''type'' = Some ''application/rss+xml''"
    and "map_of attrs ''href'' = Some X"
  shows "get_rss_feed_url get parser topic_url = (Some X, [])"
proof -
  have "is_rss_link (Tag ''link'' attrs children)" using assms(5) by simp
  from soup_find_first[OF assms(3,4) this]
  have "soup_find (parser (resp_text resp)) = Some (Tag ''link'' attrs children)" .
  from get_rss_feed_url_link[of get topic_url resp parser, OF assms(1,2) this] assms(6) show ?thesis by simp
qed

theorem resolver_first_rss_link_href_witness:
  "get_rss_feed_url
     (\<lambda>u. Inr \<lparr>status_code = 200,
        resp_text = ''<link type=text/css href=/s.css><link type=application/rss+xml href=https://a.example/rss><link type=application/rss+xml href=https://b.example/rss>''\<rparr>)
     (\<lambda>t. Tag ''[document]'' []
        [Tag ''link'' [(''type'', ''text/css''), (''href'', ''/s.css'')] [],
         Tag ''link'' [(''type'', ''application/rss+xml''), (''href'', ''https://a.example/rss'')] [],
         Tag ''link'' [(''type'', ''application/rss+xml''), (''href'', ''https://b.example/rss'')] []])
     ''https://news.example/topic''
   = (Some ''https://a.example/rss'', [])"
  using resolver_first_rss_link_href[of
     "\<lambda>u. Inr \<lparr>status_code = 200,
        resp_text = ''<link type=text/css href=/s.css><link type=application/rss+xml href=https://a.example/rss><link type=application/rss+xml href=https://b.example/rss>''\<rparr>"
     "''https://news.example/topic''"
     "\<lparr>status_code = 200,
        resp_text = ''<link type=text/css href=/s.css><link type=application/rss+xml href=https://a.example/rss><link type=application/rss+xml href=https://b.example/rss>''\<rparr>"
     "\<lambda>t. Tag ''[document]'' []
        [Tag ''link'' [(''type'', ''text/css''), (''href'', ''/s.css'')] [],
         Tag ''link'' [(''type'', ''application/rss+xml''), (''href'', ''https://a.example/rss'')] [],
         Tag ''link'' [(''type'', ''application/rss+xml''), (''href'', ''https://b.example/rss'')] []]"
     "[Tag ''link'' [(''type'', ''text/css''), (''href'', ''/s.css'')] []]"
     "[(''type'', ''application/rss+xml''), (''href'', ''https://a.example/rss'')]"
     "[]"
     "[Tag ''link'' [(''type'', ''application/rss+xml''), (''href'', ''https://b.example/rss'')] []]"
     "''https://a.example/rss''"]
  by (simp add: raise_for_status_def)

text \<open>
  As stated, for any such element, it fails: with two feed links the resolver returns the
  \<open>href\<close> of the first, not that of the second.
\<close>

theorem resolver_any_rss_link_counterexample:
  "Tag ''link'' [(''type'', ''application/rss+xml''), (''href'', ''https://b.example/rss'')] []
     \<in> set (descendants (Tag ''[document]'' []
        [Tag ''link'' [(''type'', ''application/rss+xml''), (''href'', ''https://a.example/rss'')] [],
         Tag ''link'' [(''type'', ''application/rss+xml''), (''href'', ''https://b.example/rss'')] []]))
   \<and> fst (get_rss_feed_url
     (\<lambda>u. Inr \<lparr>status_code = 200,
        resp_text = ''<link type=application/rss+xml href=https://a.example/rss><link type=application/rss+xml href=https://b.example/rss>''\<rparr>)
     (\<lambda>t. Tag ''[document]'' []
        [Tag ''link'' [(''type'', ''application/rss+xml''), (''href'', ''https://a.example/rss'')] [],
         Tag ''link'' [(''type'', ''application/rss+xml''), (''href'', ''https://b.example/rss'')] []])
     ''https://news.example/topic'')
   \<noteq> Some ''https://b.example/rss''"
  by (simp add: get_rss_feed_url_def get_rss_feed_url_try_def raise_for_status_def soup_find_def)

text \<open>
  Claim C4, as amended. When the page is fetched and the document has no \<open>link\<close>
  element of type \<open>application/rss+xml\<close>: if the raw text has the topics prefix followed
  by a non-empty run of non-quote characters that ends at a quote character or at the end
  of the text, and no match starts further to the left, the resolver returns the prefix
  with that run; and if the prefix is nowhere followed by a non-quote character, it returns
  \<open>None\<close>.
\<close>

theorem resolver_regex_fallback:
  assumes "get topic_url = Inr resp" and "raise_for_status resp = None"
    and "\<forall>n \<in> set (descendants (parser (resp_text resp))). \<not> is_rss_link n"
  shows "(\<forall>pre ident rest.
            resp_text resp = pre @ topics_prefix @ ident @ rest
          \<and> ident \<noteq> [] \<and> (\<forall>c \<in> set ident. \<not> is_quote c)
          \<and> (rest = [] \<or> (\<exists>q rest'. rest = q # rest' \<and> is_quote q))
          \<and> (\<forall>pre' c rest'. resp_text resp = pre' @ topics_prefix @ c # rest' \<and> \<not> is_quote c
                 \<longrightarrow> length pre \<le> length pre')
          \<longrightarrow> get_rss_feed_url get parser topic_url = (Some (topics_prefix @ ident), []))
       \<and> (\<not> (\<exists>pre c rest. resp_text resp = pre @ topics_prefix @ c # rest \<and> \<not> is_quote c)
          \<longrightarrow> get_rss_feed_url get parser topic_url = (None, []))"
proof -
  from soup_find_none[OF assms(3)]
  have none: "soup_find (parser (resp_text resp)) = None" .
  note fb = get_rss_feed_url_fallback[of get topic_url resp parser, OF assms(1,2) none]
  have a: "get_rss_feed_url get parser topic_url = (Some (topics_prefix @ ident), [])"
    if "resp_text resp = pre @ topics_prefix @ ident @ rest" "ident \<noteq> []"
      "\<forall>c \<in> set ident. \<not> is_quote c"
      "rest = [] \<or> (\<exists>q rest'. rest = q # rest' \<and> is_quote q)"
      "\<forall>pre' c rest'. resp_text resp = pre' @ topics_prefix @ c # rest' \<and> \<not> is_quote c
                 \<longrightarrow> length pre \<le> length pre'" for pre ident rest
  proof -
    from that(5) that(1)
    have "\<forall>pre' c rest'. pre @ topics_prefix @ ident @ rest = pre' @ topics_prefix @ c # rest'
                  \<and> \<not> is_quote c \<longrightarrow> length pre \<le> length pre'" by simp
    from re_search_leftmost[OF that(2,3,4) this] that(1) fb show ?thesis by simp
  qed
  have b: "get_rss_feed_url get parser topic_url = (None, [])"
    if "\<not> (\<exists>pre c rest. resp_text resp = pre @ topics_prefix @ c # rest \<and> \<not> is_quote c)"
    using re_search_absent[OF that] fb by simp
  from a b show ?thesis by blast
qed

theorem resolver_regex_fallback_witness:
  "get_rss_feed_url
     (\<lambda>u. Inr \<lparr>status_code = 200,
        resp_text = (''<a href='' @ [dquote]) @ topics_prefix @ ''ABC123'' @ (dquote # ''>feed</a>'')\<rparr>)
     (\<lambda>t. Tag ''[document]'' []
        [Tag ''a'' [(''href'', ''https://news.google.com/rss/topics/ABC123'')]
           [NavigableString ''feed'']])
     ''https://news.example/topic''
   = (Some ''https://news.google.com/rss/topics/ABC123'', [])
   \<and> get_rss_feed_url
     (\<lambda>u. Inr \<lparr>status_code = 200, resp_text = ''<p>no feed here</p>''\<rparr>)
     (\<lambda>t. Tag ''[document]'' [] [Tag ''p'' [] [NavigableString ''no feed here'']])
     ''https://news.example/topic''
   = (None, [])"
proof -
  let ?pre = "''<a href='' @ [dquote]"
  let ?rest = "dquote # ''>feed</a>''"
  let ?resp = "\<lparr>status_code = 200, resp_text = ?pre @ topics_prefix @ ''ABC123'' @ ?rest\<rparr>"
  let ?get = "\<lambda>u::string. Inr ?resp :: py_exception + response"
  let ?parser = "\<lambda>t::string. Tag ''[document]'' []
        [Tag ''a'' [(''href'', ''https://news.google.com/rss/topics/ABC123'')]
           [NavigableString ''feed'']]"
  have st: "raise_for_status ?resp = None" by (simp add: raise_for_status_def)
  have nolink: "\<forall>n \<in> set (descendants (?parser (resp_text ?resp))). \<not> is_rss_link n" by simp
  have ns: "\<not> sublist topics_prefix (?pre @ butlast topics_prefix)"
    by (simp add: topics_prefix_def dquote_def sublist_Cons_right)
  have first: "\<forall>pre' c rest'. resp_text ?resp = pre' @ topics_prefix @ c # rest' \<and> \<not> is_quote c
                 \<longrightarrow> length ?pre \<le> length pre'"
  proof (intro allI impI)
    fix pre' c rest'
    assume "resp_text ?resp = pre' @ topics_prefix @ c # rest' \<and> \<not> is_quote c"
    then have "?pre @ topics_prefix @ (''ABC123'' @ ?rest) = pre' @ topics_prefix @ (c # rest')"
      by simp
    from first_by_sublist[OF ns this] show "length ?pre \<le> length pre'" .
  qed
  have ident: "\<forall>c \<in> set ''ABC123''. \<not> is_quote c"
    by (simp add: is_quote_def squote_def dquote_def)
  have q: "?rest = [] \<or> (\<exists>q rest'. ?rest = q # rest' \<and> is_quote q)"
    by (simp add: is_quote_def)
  have one: "get_rss_feed_url ?get ?parser ''https://news.example/topic''
      = (Some (topics_prefix @ ''ABC123''), [])"
    using resolver_regex_fallback[of ?get "''https://news.example/topic''" ?resp ?parser,
        OF _ st nolink, THEN conjunct1, rule_format, of ?pre "''ABC123''" ?rest]
      first ident q by simp
  let ?resp2 = "\<lparr>status_code = 200, resp_text = ''<p>no feed here</p>''\<rparr>"
  let ?get2 = "\<lambda>u::string. Inr ?resp2 :: py_exception + response"
  let ?parser2 = "\<lambda>t::string. Tag ''[document]'' [] [Tag ''p'' [] [NavigableString ''no feed here'']]"
  have st2: "raise_for_status ?resp2 = None" by (simp add: raise_for_status_def)
  have nolink2: "\<forall>n \<in> set (descendants (?parser2 (resp_text ?resp2))). \<not> is_rss_link n" by simp
  have ns2: "\<not> sublist topics_prefix (resp_text ?resp2)"
    by (simp add: topics_prefix_def sublist_Cons_right)
  have absent: "\<not> (\<exists>pre c rest. resp_text ?resp2 = pre @ topics_prefix @ c # rest \<and> \<not> is_quote c)"
  proof
    assume "\<exists>pre c rest. resp_text ?resp2 = pre @ topics_prefix @ c # rest \<and> \<not> is_quote c"
    then obtain pre c rest where "resp_text ?resp2 = pre @ topics_prefix @ c # rest" by blast
    then have "sublist topics_prefix (resp_text ?resp2)" by (simp only: sublist_appendI)
    with ns2 show False by blast
  qed
  have two: "get_rss_feed_url ?get2 ?parser2 ''https://news.example/topic'' = (None, [])"
    using resolver_regex_fallback[of ?get2 "''https://news.example/topic''" ?resp2 ?parser2,
        OF _ st2 nolink2, THEN conjunct2] absent by simp
  from one two show ?thesis by (simp add: topics_prefix_def)
qed

text \<open>
  As stated, with the match ending at a quote character only, it fails: a text without any
  quote character, where the URL runs to the end of the text, still gives the URL.
\<close>

theorem resolver_regex_unterminated_counterexample:
  "filter is_quote ''see https://news.google.com/rss/topics/ABC123'' = []
   \<and> get_rss_feed_url
     (\<lambda>u. Inr \<lparr>status_code = 200, resp_text = ''see https://news.google.com/rss/topics/ABC123''\<rparr>)
     (\<lambda>t. Tag ''[document]'' [] [NavigableString ''see https://news.google.com/rss/topics/ABC123''])
     ''https://news.example/topic''
   = (Some ''https://news.google.com/rss/topics/ABC123'', [])"
  by (simp add: get_rss_feed_url_def get_rss_feed_url_try_def raise_for_status_def soup_find_def
      match_at_def topics_prefix_def is_quote_def squote_def dquote_def)

text \<open>
  Claim C9, as amended. When the page is fetched and the first \<open>link\<close> element of type
  \<open>application/rss+xml\<close> in document order has no \<open>href\<close> attribute, the resolver
  returns \<open>None\<close> and prints the \<open>KeyError\<close>; the raw text is not searched, even when
  it holds a match.
\<close>

theorem resolver_first_rss_link_no_href:
  assumes "get topic_url = Inr resp" and "raise_for_status resp = None"
    and "descendants (parser (resp_text resp)) = pre @ Tag ''link'' attrs children # post"
    and "\<forall>n \<in> set pre. \<not> is_rss_link n"
    and "map_of attrs ''type'' = Some ''application/rss+xml''"
    and "map_of attrs ''href'' = None"
  shows "get_rss_feed_url get parser topic_url =
           (None, [Print (''Error getting RSS URL: '' @ [squote] @ ''href'' @ [squote])])"
proof -
  have "is_rss_link (Tag ''link'' attrs children)" using assms(5) by simp
  from soup_find_first[OF assms(3,4) this]
  have "soup_find (parser (resp_text resp)) = Some (Tag ''link'' attrs children)" .
  from get_rss_feed_url_link[of get topic_url resp parser, OF assms(1,2) this] assms(6) show ?thesis by simp
qed

theorem resolver_first_rss_link_no_href_witness:
  "re_search ''<link type=application/rss+xml> https://news.google.com/rss/topics/ABC123''
     = Some ''https://news.google.com/rss/topics/ABC123''
   \<and> get_rss_feed_url
     (\<lambda>u. Inr \<lparr>status_code = 200,
        resp_text = ''<link type=application/rss+xml> https://news.google.com/rss/topics/ABC123''\<rparr>)
     (\<lambda>t. Tag ''[document]'' []
        [Tag ''link'' [(''type'', ''application/rss+xml'')] [],
         NavigableString '' https://news.google.com/rss/topics/ABC123''])
     ''https://news.example/topic''
   = (None, [Print (''Error getting RSS URL: '' @ [squote] @ ''href'' @ [squote])])"
proof -
  have "re_search ''<link type=application/rss+xml> https://news.google.com/rss/topics/ABC123''
     = Some ''https://news.google.com/rss/topics/ABC123''"
    by (simp add: match_at_def topics_prefix_def is_quote_def squote_def dquote_def)
  then show ?thesis
  using resolver_first_rss_link_no_href[of
     "\<lambda>u. Inr \<lparr>status_code = 200,
        resp_text = ''<link type=application/rss+xml> https://news.google.com/rss/topics/ABC123''\<rparr>"
     "''https://news.example/topic''"
     "\<lparr>status_code = 200,
        resp_text = ''<link type=application/rss+xml> https://news.google.com/rss/topics/ABC123''\<rparr>"
     "\<lambda>t. Tag ''[document]'' []
        [Tag ''link'' [(''type'', ''application/rss+xml'')] [],
         NavigableString '' https://news.google.com/rss/topics/ABC123'']"
     "[]"
     "[(''type'', ''application/rss+xml'')]"
     "[]"
     "[NavigableString '' https://news.google.com/rss/topics/ABC123'']"]
  by (simp add: raise_for_status_def)
qed

text \<open>
  As stated, for any such element, it fails: when an earlier feed link has an \<open>href\<close>,
  that value is returned although a later feed link has none.
\<close>

theorem resolver_rss_link_no_href_counterexample:
  "Tag ''link'' [(''type'', ''application/rss+xml'')] []
     \<in> set (descendants (Tag ''[document]'' []
        [Tag ''link'' [(''type'', ''application/rss+xml''), (''href'', ''https://a.example/rss'')] [],
         Tag ''link'' [(''type'', ''application/rss+xml'')] []]))
   \<and> map_of [(''type'', ''application/rss+xml'')] ''href'' = None
   \<and> fst (get_rss_feed_url
     (\<lambda>u. Inr \<lparr>status_code = 200,
        resp_text = ''<link type=application/rss+xml href=https://a.example/rss><link type=application/rss+xml>''\<rparr>)
     (\<lambda>t. Tag ''[document]'' []
        [Tag ''link'' [(''type'', ''application/rss+xml''), (''href'', ''https://a.example/rss'')] [],
         Tag ''link'' [(''type'', ''application/rss+xml'')] []])
     ''https://news.example/topic'')
   = Some ''https://a.example/rss''"
  by (simp add: get_rss_feed_url_def get_rss_feed_url_try_def raise_for_status_def soup_find_def)

section \<open>Persistence and the driver\<close>

lemma get_rss_feed_url_prints:
  "ev \<in> set (snd (get_rss_feed_url g p u)) \<Longrightarrow> \<exists>m. ev = Print m"
  by (auto simp: get_rss_feed_url_def split: sum.splits)

lemma parse_rss_feed_prints:
  "ev \<in> set (snd (parse_rss_feed fp u)) \<Longrightarrow> \<exists>m. ev = Print m"
  by (auto simp: parse_rss_feed_def split: sum.splits)


lemma main_unresolved:
  assumes "fst (get_rss_feed_url (requests_get w) (html_parser w) (NEWS_URL (environ w))) = None
         \<or> fst (get_rss_feed_url (requests_get w) (html_parser w) (NEWS_URL (environ w))) = Some []"
  shows "main w =
     (1, [Print ''Starting Google News scraper...'', Print (''Target URL: '' @ NEWS_URL (environ w))]
           @ snd (get_rss_feed_url (requests_get w) (html_parser w) (NEWS_URL (environ w)))
           @ [Print ''Failed to find RSS feed URL''])"
  using assms by (auto simp: main_def Let_def split: prod.splits)

lemma main_resolved:
  assumes "fst (get_rss_feed_url (requests_get w) (html_parser w) (NEWS_URL (environ w))) = Some u"
    and "u \<noteq> []"
  shows "main w =
     (let out2 = [Print ''Starting Google News scraper...'',
                  Print (''Target URL: '' @ NEWS_URL (environ w))]
           @ snd (get_rss_feed_url (requests_get w) (html_parser w) (NEWS_URL (environ w)))
           @ [Print (''Found RSS feed: '' @ u)]
           @ snd (parse_rss_feed (feedparser_parse w) u);
          articles = fst (parse_rss_feed (feedparser_parse w) u)
      in if articles = [] then (1, out2 @ [Print ''No articles found in RSS feed''])
         else (0, out2 @ [Print (''Found '' @ str_nat (length articles) @ '' articles'')]
                 @ save_news_data w articles @ [Print ''Scraping completed successfully'']))"
  using assms by (auto simp: main_def Let_def split: prod.splits)





lemma sample_articles:
  "parse_rss_feed (feedparser_parse sample_world) u =
     ([\<lparr>title = ''a'', link = ''https://example.org/a'',
        published = ''Wed, 01 May 2024 08:00:00 GMT'', source = ''Reuters'',
        summary = ''<b>Hi</b> there''\<rparr>], [])"
  by (simp add: sample_world_def sample_entry_def parse_rss_feed_def parse_rss_feed_try_def
      MAX_ARTICLES_def parse_entry_def raw_source_def get_or_empty_def clean_source_def
      str_split_def list_index0_def get_attr_def split_from.simps)

lemma sample_resolved:
  "get_rss_feed_url (requests_get sample_world) (html_parser sample_world) u =
     (Some ''https://news.example/rss'', [])"
  by (simp add: sample_world_def get_rss_feed_url_def get_rss_feed_url_try_def
      raise_for_status_def soup_find_def)







lemma save_news_data_failed:
  "save_news_data_try w articles = (evs, Some x) \<Longrightarrow>
     save_news_data w articles = evs @ [Print (''Error saving news data: '' @ exn_str x)]"
  by (simp add: save_news_data_def)

lemma update_readme_failed:
  "update_readme_try w articles d = (evs, Some x) \<Longrightarrow>
     update_readme w articles d = evs @ [Print (''Error updating README: '' @ exn_str x)]"
  by (simp add: update_readme_def)



text \<open>
  Claim C6, as amended. The exit code is 0 or 1. It is 1 when no feed URL is found (the
  resolver returns \<open>None\<close> or the empty string), and the same 1 when a feed URL is found
  and no article is extracted; in both cases the run only prints: no directory is made and
  no file is opened or written. It is 0 when a feed URL is found and at least one article
  is extracted.
\<close>

theorem main_exit_codes:
  "(fst (main w) = 0 \<or> fst (main w) = 1)
   \<and> (fst (get_rss_feed_url (requests_get w) (html_parser w) (NEWS_URL (environ w))) = None
        \<or> fst (get_rss_feed_url (requests_get w) (html_parser w) (NEWS_URL (environ w))) = Some []
      \<longrightarrow> fst (main w) = 1 \<and> (\<forall>ev \<in> set (snd (main w)). \<exists>m. ev = Print m))
   \<and> (\<forall>u. fst (get_rss_feed_url (requests_get w) (html_parser w) (NEWS_URL (environ w))) = Some u
          \<and> u \<noteq> [] \<and> fst (parse_rss_feed (feedparser_parse w) u) = []
      \<longrightarrow> fst (main w) = 1 \<and> (\<forall>ev \<in> set (snd (main w)). \<exists>m. ev = Print m))
   \<and> (\<forall>u. fst (get_rss_feed_url (requests_get w) (html_parser w) (NEWS_URL (environ w))) = Some u
          \<and> u \<noteq> [] \<and> fst (parse_rss_feed (feedparser_parse w) u) \<noteq> []
      \<longrightarrow> fst (main w) = 0)"
proof -
  let ?res = "get_rss_feed_url (requests_get w) (html_parser w) (NEWS_URL (environ w))"
  have a: "fst (main w) = 1 \<and> (\<forall>ev \<in> set (snd (main w)). \<exists>m. ev = Print m)"
    if "fst ?res = None \<or> fst ?res = Some []"
    using main_unresolved[OF that] get_rss_feed_url_prints by auto
  have b: "fst (main w) = 1 \<and> (\<forall>ev \<in> set (snd (main w)). \<exists>m. ev = Print m)"
    if "fst ?res = Some u" "u \<noteq> []" "fst (parse_rss_feed (feedparser_parse w) u) = []" for u
    using main_resolved[OF that(1,2)] that(3) get_rss_feed_url_prints parse_rss_feed_prints
    by (auto simp: Let_def)
  have c: "fst (main w) = 0"
    if "fst ?res = Some u" "u \<noteq> []" "fst (parse_rss_feed (feedparser_parse w) u) \<noteq> []" for u
    using main_resolved[OF that(1,2)] that(3) by (simp add: Let_def)
  have d: "fst (main w) = 0 \<or> fst (main w) = 1"
  proof (cases "fst ?res")
    case None
    with a show ?thesis by simp
  next
    case (Some u)
    with a[OF disjI2] b[of u] c[of u] show ?thesis by (cases "u = []") blast+
  qed
  from a b c d show ?thesis by blast
qed

theorem main_exit_codes_witness:
  "main (sample_world\<lparr>requests_get := \<lambda>u. Inl (RequestException ''timed out'')\<rparr>)
     = (1, [Print ''Starting Google News scraper...'',
            Print (''Target URL: '' @ DEFAULT_NEWS_URL),
            Print ''Error getting RSS URL: timed out'',
            Print ''Failed to find RSS feed URL''])
   \<and> main (sample_world\<lparr>feedparser_parse := \<lambda>u. Inr \<lparr>entries = []\<rparr>\<rparr>)
     = (1, [Print ''Starting Google News scraper...'',
            Print (''Target URL: '' @ DEFAULT_NEWS_URL),
            Print ''Found RSS feed: https://news.example/rss'',
            Print ''No articles found in RSS feed''])
   \<and> fst (main sample_world) = 0"
proof -
  let ?w1 = "sample_world\<lparr>requests_get := \<lambda>u. Inl (RequestException ''timed out'')\<rparr>"
  let ?w2 = "sample_world\<lparr>feedparser_parse := \<lambda>u. Inr \<lparr>entries = []\<rparr>\<rparr>"
  have r1: "get_rss_feed_url (requests_get ?w1) (html_parser ?w1) (NEWS_URL (environ ?w1))
      = (None, [Print ''Error getting RSS URL: timed out''])"
    by (simp add: get_rss_feed_url_def get_rss_feed_url_try_def)
  have r2: "fst (get_rss_feed_url (requests_get ?w2) (html_parser ?w2) (NEWS_URL (environ ?w2)))
      = Some ''https://news.example/rss''"
    by (simp add: sample_resolved)
  have a2: "parse_rss_feed (feedparser_parse ?w2) ''https://news.example/rss'' = ([], [])"
    by (simp add: parse_rss_feed_def parse_rss_feed_try_def)
  have r3: "fst (get_rss_feed_url (requests_get sample_world) (html_parser sample_world)
      (NEWS_URL (environ sample_world))) = Some ''https://news.example/rss''"
    by (simp add: sample_resolved)
  have a3: "fst (parse_rss_feed (feedparser_parse sample_world) ''https://news.example/rss'') \<noteq> []"
    by (simp add: sample_articles)
  have url: "NEWS_URL (environ sample_world) = DEFAULT_NEWS_URL"
    by (simp add: sample_world_def NEWS_URL_def os_getenv_def)
  from main_exit_codes[of ?w1] r1 have c1: "fst (main ?w1) = 1" by simp
  from main_exit_codes[of ?w2] r2 a2 have c2: "fst (main ?w2) = 1" by simp
  from main_exit_codes[of sample_world] r3 a3 have c3: "fst (main sample_world) = 0" by blast
  from main_unresolved[of ?w1] r1 url
  have e1: "snd (main ?w1) = [Print ''Starting Google News scraper...'',
            Print (''Target URL: '' @ DEFAULT_NEWS_URL),
            Print ''Error getting RSS URL: timed out'',
            Print ''Failed to find RSS feed URL'']" by simp
  from main_resolved[of ?w2, OF r2] a2 url
  have e2: "snd (main ?w2) = [Print ''Starting Google News scraper...'',
            Print (''Target URL: '' @ DEFAULT_NEWS_URL),
            Print ''Found RSS feed: https://news.example/rss'',
            Print ''No articles found in RSS feed'']"
    by (simp add: Let_def sample_resolved)
  from c1 e1 have "main ?w1 = (1, [Print ''Starting Google News scraper...'',
            Print (''Target URL: '' @ DEFAULT_NEWS_URL),
            Print ''Error getting RSS URL: timed out'',
            Print ''Failed to find RSS feed URL''])"
    by (simp only: prod_eq_iff fst_conv snd_conv)
  moreover from c2 e2 have "main ?w2 = (1, [Print ''Starting Google News scraper...'',
            Print (''Target URL: '' @ DEFAULT_NEWS_URL),
            Print ''Found RSS feed: https://news.example/rss'',
            Print ''No articles found in RSS feed''])"
    by (simp only: prod_eq_iff fst_conv snd_conv)
  ultimately show ?thesis using c3 by blast
qed

text \<open>
  As stated, with the code for zero articles distinct from the code for a failed
  resolution, it fails: a run whose page fetch fails and a run whose feed has no entry end
  with the same code.
\<close>

theorem main_failure_codes_counterexample:
  "fst (get_rss_feed_url
         (requests_get (sample_world\<lparr>requests_get := \<lambda>u. Inl (RequestException ''timed out'')\<rparr>))
         (html_parser (sample_world\<lparr>requests_get := \<lambda>u. Inl (RequestException ''timed out'')\<rparr>))
         (NEWS_URL (environ (sample_world\<lparr>requests_get :=
             \<lambda>u. Inl (RequestException ''timed out'')\<rparr>)))) = None
   \<and> fst (get_rss_feed_url
         (requests_get (sample_world\<lparr>feedparser_parse := \<lambda>u. Inr \<lparr>entries = []\<rparr>\<rparr>))
         (html_parser (sample_world\<lparr>feedparser_parse := \<lambda>u. Inr \<lparr>entries = []\<rparr>\<rparr>))
         (NEWS_URL (environ (sample_world\<lparr>feedparser_parse := \<lambda>u. Inr \<lparr>entries = []\<rparr>\<rparr>))))
       = Some ''https://news.example/rss''
   \<and> fst (parse_rss_feed
         (feedparser_parse (sample_world\<lparr>feedparser_parse := \<lambda>u. Inr \<lparr>entries = []\<rparr>\<rparr>))
         ''https://news.example/rss'') = []
   \<and> fst (main (sample_world\<lparr>requests_get := \<lambda>u. Inl (RequestException ''timed out'')\<rparr>))
       = fst (main (sample_world\<lparr>feedparser_parse := \<lambda>u. Inr \<lparr>entries = []\<rparr>\<rparr>))"
proof -
  let ?w1 = "sample_world\<lparr>requests_get := \<lambda>u. Inl (RequestException ''timed out'')\<rparr>"
  let ?w2 = "sample_world\<lparr>feedparser_parse := \<lambda>u. Inr \<lparr>entries = []\<rparr>\<rparr>"
  have r1: "fst (get_rss_feed_url (requests_get ?w1) (html_parser ?w1) (NEWS_URL (environ ?w1)))
      = None"
    by (simp add: get_rss_feed_url_def get_rss_feed_url_try_def)
  have r2: "fst (get_rss_feed_url (requests_get ?w2) (html_parser ?w2) (NEWS_URL (environ ?w2)))
      = Some ''https://news.example/rss''"
    by (simp add: sample_resolved)
  have a2: "fst (parse_rss_feed (feedparser_parse ?w2) ''https://news.example/rss'') = []"
    by (simp add: parse_rss_feed_def parse_rss_feed_try_def)
  from main_unresolved[of ?w1] r1 have m1: "fst (main ?w1) = 1" by simp
  from main_resolved[of ?w2, OF r2] a2 have m2: "fst (main ?w2) = 1" by (simp add: Let_def)
  from r1 r2 a2 m1 m2 show ?thesis by simp
qed

text \<open>
  Claim C10. When a feed URL is found and at least one article is extracted, the process
  ends with code 0 and its last action is printing the completion message, whatever the
  file system answers: an exception while saving the snapshot or while rebuilding the
  summary index is turned into a printed line by the function in which it occurs.
\<close>

theorem main_completes_despite_save_failure:
  assumes "fst (get_rss_feed_url (requests_get w) (html_parser w) (NEWS_URL (environ w))) = Some u"
    and "u \<noteq> []"
    and "fst (parse_rss_feed (feedparser_parse w) u) = articles"
    and "articles \<noteq> []"
  shows "fst (main w) = 0
       \<and> last (snd (main w)) = Print ''Scraping completed successfully''
       \<and> (\<exists>before. snd (main w) =
             before @ save_news_data w articles @ [Print ''Scraping completed successfully''])
       \<and> (\<forall>evs x. save_news_data_try w articles = (evs, Some x) \<longrightarrow>
             save_news_data w articles = evs @ [Print (''Error saving news data: '' @ exn_str x)])
       \<and> (\<forall>evs x d. update_readme_try w articles d = (evs, Some x) \<longrightarrow>
             update_readme w articles d = evs @ [Print (''Error updating README: '' @ exn_str x)])"
proof -
  from main_resolved[OF assms(1,2)] assms(3,4)
  have m: "main w = (0, ([Print ''Starting Google News scraper...'',
                  Print (''Target URL: '' @ NEWS_URL (environ w))]
           @ snd (get_rss_feed_url (requests_get w) (html_parser w) (NEWS_URL (environ w)))
           @ [Print (''Found RSS feed: '' @ u)]
           @ snd (parse_rss_feed (feedparser_parse w) u)
           @ [Print (''Found '' @ str_nat (length articles) @ '' articles'')])
           @ save_news_data w articles @ [Print ''Scraping completed successfully''])"
    by (simp add: Let_def)
  then have "fst (main w) = 0" by simp
  moreover from m have "last (snd (main w)) = Print ''Scraping completed successfully''"
    by (simp only: snd_conv append_assoc[symmetric] last_snoc)
  moreover from m have "\<exists>before. snd (main w) =
             before @ save_news_data w articles @ [Print ''Scraping completed successfully'']"
    by (metis snd_conv)
  ultimately show ?thesis
    using save_news_data_failed update_readme_failed by blast
qed

theorem main_completes_despite_save_failure_witness:
  "fst (get_rss_feed_url
         (requests_get (sample_world\<lparr>open_write := \<lambda>p. Some (OSError ''disk full'')\<rparr>))
         (html_parser (sample_world\<lparr>open_write := \<lambda>p. Some (OSError ''disk full'')\<rparr>))
         (NEWS_URL (environ (sample_world\<lparr>open_write := \<lambda>p. Some (OSError ''disk full'')\<rparr>))))
       = Some ''https://news.example/rss''
   \<and> fst (parse_rss_feed
         (feedparser_parse (sample_world\<lparr>open_write := \<lambda>p. Some (OSError ''disk full'')\<rparr>))
         ''https://news.example/rss'') \<noteq> []
   \<and> save_news_data (sample_world\<lparr>open_write := \<lambda>p. Some (OSError ''disk full'')\<rparr>)
         (fst (parse_rss_feed
           (feedparser_parse (sample_world\<lparr>open_write := \<lambda>p. Some (OSError ''disk full'')\<rparr>))
           ''https://news.example/rss''))
       = [MakeDirs ''news'', Print ''Error saving news data: disk full'']
   \<and> fst (main (sample_world\<lparr>open_write := \<lambda>p. Some (OSError ''disk full'')\<rparr>)) = 0
   \<and> last (snd (main (sample_world\<lparr>open_write := \<lambda>p. Some (OSError ''disk full'')\<rparr>)))
       = Print ''Scraping completed successfully''"
proof -
  let ?w = "sample_world\<lparr>open_write := \<lambda>p. Some (OSError ''disk full'')\<rparr>"
  let ?as = "fst (parse_rss_feed (feedparser_parse ?w) ''https://news.example/rss'')"
  have r: "fst (get_rss_feed_url (requests_get ?w) (html_parser ?w) (NEWS_URL (environ ?w)))
      = Some ''https://news.example/rss''"
    by (simp add: sample_resolved)
  have a: "?as \<noteq> []" by (simp add: sample_articles)
  have s: "save_news_data ?w ?as = [MakeDirs ''news'', Print ''Error saving news data: disk full'']"
    by (simp add: save_news_data_def save_news_data_try_def sample_world_def OUTPUT_DIR_def)
  from main_completes_despite_save_failure[of ?w "''https://news.example/rss''" ?as, OF r _ _ a]
  have "fst (main ?w) = 0 \<and> last (snd (main ?w)) = Print ''Scraping completed successfully''"
    by simp
  with r a s show ?thesis by blast
qed




end
